theory Spec2Isabelle
  imports Complex_Main
begin

section \<open>Pan-tilt tracker: configuration\<close>

text \<open>
  The embedding follows \<^verbatim>\<open>src/auto-turret-tracker.py\<close>. Python floats are read as
  real numbers (no rounding, no NaN), Python and numpy integers as unbounded integers.
  The constants below are the CONFIG block of the script, with the values it assigns;
  an integer literal that only ever enters float arithmetic or a comparison with a float
  (the angle limits, the scan ranges) is typed \<open>real\<close>.
\<close>

definition PAN_CH :: nat where "PAN_CH = 0"
definition TILT_CH :: nat where "TILT_CH = 1"

definition PAN_MIN :: real where "PAN_MIN = 20"
definition PAN_MAX :: real where "PAN_MAX = 160"
definition TILT_MIN :: real where "TILT_MIN = 50"
definition TILT_MAX :: real where "TILT_MAX = 130"
definition PAN_CENTER :: real where "PAN_CENTER = 90"
definition TILT_CENTER :: real where "TILT_CENTER = 90"

definition TILT_DIR :: int where "TILT_DIR = - 1"

definition SCAN_RANGE_PAN :: real where "SCAN_RANGE_PAN = 40"
definition SCAN_RANGE_TILT :: real where "SCAN_RANGE_TILT = 30"
definition SCAN_STEP :: int where "SCAN_STEP = 1"
definition SCAN_DELAY :: real where "SCAN_DELAY = 1 / 10"
definition SCAN_WAVES :: real where "SCAN_WAVES = 4"

definition CENTER_TOL_X :: int where "CENTER_TOL_X = 8"
definition CENTER_TOL_Y :: int where "CENTER_TOL_Y = 8"
definition GAIN_PAN :: real where "GAIN_PAN = 5 / 100"
definition GAIN_TILT :: real where "GAIN_TILT = 5 / 100"
definition LOST_TIMEOUT :: real where "LOST_TIMEOUT = 2"

definition CAM_W :: int where "CAM_W = 300"
definition CAM_H :: int where "CAM_H = 225"

definition FACE_CONF :: real where "FACE_CONF = 5 / 10"
definition MIN_FACE_PIX :: int where "MIN_FACE_PIX = 225"
definition FACE_HOLD_SEC :: real where "FACE_HOLD_SEC = 1 / 10"

definition PERSON_CLASS :: int where "PERSON_CLASS = 15"
definition PERSON_CONF :: real where "PERSON_CONF = 5 / 10"
definition MIN_BODY_FRAC :: real where "MIN_BODY_FRAC = 2 / 100"

text \<open>Image centre: \<^verbatim>\<open>CX, CY = CAM_W // 2, CAM_H // 2\<close>.\<close>

definition CX :: int where "CX = CAM_W div 2"
definition CY :: int where "CY = CAM_H div 2"

section \<open>Servo output\<close>

text \<open>
  Python's \<^verbatim>\<open>int(x)\<close> and numpy's \<^verbatim>\<open>astype(int)\<close> on a float: truncation
  towards zero.
\<close>

definition py_int :: "real \<Rightarrow> int" where
  "py_int x = (if 0 \<le> x then \<lfloor>x\<rfloor> else \<lceil>x\<rceil>)"

text \<open>
  \<^verbatim>\<open>set_angle(ch, ang)\<close>: the angle is clamped to [0, 180], turned into a pulse
  width in microseconds and then into a 16-bit duty cycle of the 20 ms period. The write
  \<^verbatim>\<open>pca.channels[ch].duty_cycle = duty\<close> is the command \<open>(ch, duty)\<close>.
\<close>

definition pulse_us :: "real \<Rightarrow> real" where
  "pulse_us ang = 500 + (max 0 (min 180 ang) / 180) * 1900"

definition set_angle :: "nat \<Rightarrow> real \<Rightarrow> nat \<times> int" where
  "set_angle ch ang = (ch, py_int (pulse_us ang * 65535 / 20000))"

section \<open>Detections\<close>

text \<open>
  One row \<^verbatim>\<open>det[0, 0, i, :]\<close> of a detector's output tensor: column 1 is the class
  id, column 2 the confidence, columns 3 to 6 the box corners as fractions of the frame.
  Both networks (SSD face detector, MobileNet-SSD) use this layout.
\<close>

datatype det = Det (det_cls: real) (det_conf: real)
  (det_x1: real) (det_y1: real) (det_x2: real) (det_y2: real)

type_synonym box = "int \<times> int \<times> int \<times> int"

text \<open>
  \<^verbatim>\<open>(det[0, 0, i, 3:7] * np.array([CAM_W, CAM_H, CAM_W, CAM_H])).astype(int)\<close>
\<close>

definition scale_box :: "det \<Rightarrow> box" where
  "scale_box d =
     (py_int (det_x1 d * real_of_int CAM_W), py_int (det_y1 d * real_of_int CAM_H),
      py_int (det_x2 d * real_of_int CAM_W), py_int (det_y2 d * real_of_int CAM_H))"

definition box_area :: "box \<Rightarrow> int" where
  "box_area b = (case b of (x1, y1, x2, y2) \<Rightarrow> (x2 - x1) * (y2 - y1))"

text \<open>
  The face loop (lines 216 to 228): the accumulator is \<open>(best_face, best_fconf)\<close>,
  started at \<open>(None, 0.0)\<close>; each \<^verbatim>\<open>continue\<close> is a recursive call with the
  accumulator unchanged.
\<close>

fun face_loop :: "det list \<Rightarrow> box option \<times> real \<Rightarrow> box option \<times> real" where
  "face_loop [] acc = acc"
| "face_loop (d # ds) (best_face, best_fconf) =
     (if det_conf d < FACE_CONF then face_loop ds (best_face, best_fconf)
      else if box_area (scale_box d) < MIN_FACE_PIX then face_loop ds (best_face, best_fconf)
      else if det_conf d > best_fconf then face_loop ds (Some (scale_box d), det_conf d)
      else face_loop ds (best_face, best_fconf))"

text \<open>
  The body loop (lines 255 to 267), on the accumulator \<open>(best_box, best_conf)\<close>.
\<close>

fun body_loop :: "det list \<Rightarrow> box option \<times> real \<Rightarrow> box option \<times> real" where
  "body_loop [] acc = acc"
| "body_loop (d # ds) (best_box, best_conf) =
     (if det_conf d < PERSON_CONF \<or> py_int (det_cls d) \<noteq> PERSON_CLASS
      then body_loop ds (best_box, best_conf)
      else if real_of_int (box_area (scale_box d))
                < MIN_BODY_FRAC * real_of_int CAM_W * real_of_int CAM_H
      then body_loop ds (best_box, best_conf)
      else if det_conf d > best_conf then body_loop ds (Some (scale_box d), det_conf d)
      else body_loop ds (best_box, best_conf))"

section \<open>Runtime state and one loop iteration\<close>

text \<open>The module-level variables that \<^verbatim>\<open>gen_frames\<close> declares \<^verbatim>\<open>global\<close>.\<close>

record state =
  pan :: real
  tilt :: real
  scan_dir :: int
  last_seen :: real
  last_face_time :: real
  last_face_box :: "box option"
  last_conf :: real
  last_fx :: int
  last_fy :: int
  tracking_mode :: string

definition init_state :: state where
  "init_state =
     \<lparr>pan = PAN_CENTER, tilt = TILT_CENTER, scan_dir = 1, last_seen = 0,
      last_face_time = 0, last_face_box = None, last_conf = 0,
      last_fx = CX, last_fy = CY, tracking_mode = ''none''\<rparr>"

text \<open>
  What one iteration reads from outside: the two detectors' rows for the captured frame
  and the five readings of \<^verbatim>\<open>time.time()\<close>, in program order (lines 232, 236, 293,
  298 and 358). The readings are separate inputs: the code calls the clock each time.
\<close>

record frame_in =
  det_f :: "det list"
  det_p :: "det list"
  t_face :: real
  t_use :: real
  t_seen :: real
  t_now :: real
  t_status :: real

text \<open>\<^verbatim>\<open>picam2.capture_array()\<close> either raises or returns a frame.\<close>

datatype capture = CaptureFailed | Captured frame_in

text \<open>
  What one iteration does to the outside: the servo commands in order, the sleeps, and
  the values drawn on the frame (target box, its confidence, the status text).
\<close>

record hud =
  best_box :: "box option"
  best_conf :: real
  detected :: bool
  status :: string
  servo_cmds :: "(nat \<times> int) list"
  sleeps :: "real list"

datatype outcome = Retry real | Published hud

text \<open>
  Lines 230 to 232: an accepted face overwrites the remembered one and its time stamp.
\<close>

definition remember_face :: "state \<Rightarrow> box option \<Rightarrow> real \<Rightarrow> state" where
  "remember_face s best_face t =
     (case best_face of
        Some b \<Rightarrow> s\<lparr>last_face_box := Some b, last_face_time := t\<rparr>
      | None \<Rightarrow> s)"

text \<open>Lines 235 to 238, on the state after \<open>remember_face\<close>.\<close>

definition use_face :: "state \<Rightarrow> real \<Rightarrow> bool" where
  "use_face s t = (t - last_face_time s < FACE_HOLD_SEC \<and> last_face_box s \<noteq> None)"

text \<open>
  Lines 239 to 272: the mode and the target \<open>(best_box, best_conf)\<close>. With a usable face
  the target is the remembered box paired with this frame's \<open>best_fconf\<close>. When the mode
  is still \<open>none\<close> the body loop runs on \<open>(best_box, best_conf)\<close> and a hit turns the mode
  into \<open>body\<close>.
\<close>

definition select_target :: "state \<Rightarrow> real \<Rightarrow> frame_in \<Rightarrow> string \<times> box option \<times> real" where
  "select_target s best_fconf f =
     (let uf = use_face s (t_use f);
          mode0 = (if uf then ''face'' else ''none'');
          target0 = (if uf then (last_face_box s, best_fconf) else (None, 0))
      in if mode0 = ''none''
         then (case body_loop (det_p f) target0 of
                 (bb, bc) \<Rightarrow> (if bb \<noteq> None then ''body'' else mode0, bb, bc))
         else (mode0, fst target0, snd target0))"

text \<open>
  Lines 276 to 295: the proportional adjustment of each axis outside its dead zone, with
  the clamp to the mechanical limits, then the bookkeeping of the accepted target.
\<close>

definition track :: "state \<Rightarrow> box \<Rightarrow> real \<Rightarrow> real \<Rightarrow> state \<times> (nat \<times> int) list" where
  "track s b conf t =
     (case b of (x1, y1, x2, y2) \<Rightarrow>
       (let fx = (x1 + x2) div 2;
            fy = (y1 + y2) div 2;
            err_x = fx - CX;
            pan' = (if \<bar>err_x\<bar> > CENTER_TOL_X
                    then max PAN_MIN (min PAN_MAX (pan s - real_of_int err_x * GAIN_PAN))
                    else pan s);
            cmd_x = (if \<bar>err_x\<bar> > CENTER_TOL_X then [set_angle PAN_CH pan'] else []);
            err_y = fy - CY;
            tilt' = (if \<bar>err_y\<bar> > CENTER_TOL_Y
                     then max TILT_MIN
                            (min TILT_MAX (tilt s + real_of_int (TILT_DIR * err_y) * GAIN_TILT))
                     else tilt s);
            cmd_y = (if \<bar>err_y\<bar> > CENTER_TOL_Y then [set_angle TILT_CH tilt'] else [])
        in (s\<lparr>pan := pan', tilt := tilt', last_seen := t, last_conf := conf,
               last_fx := fx, last_fy := fy\<rparr>,
            cmd_x @ cmd_y)))"

text \<open>
  Lines 300 to 314: one scan step. The pan moves by one step; when that leaves the
  limits the direction is reversed and the step applied again in the new direction.
  The tilt is a sine of the pan position, clamped.
\<close>

definition scan_step :: "state \<Rightarrow> state \<times> (nat \<times> int) list \<times> real list" where
  "scan_step s =
     (let pan1 = pan s + real_of_int (SCAN_STEP * scan_dir s);
          bounce = (pan1 > PAN_MAX \<or> pan1 < PAN_MIN);
          dir' = (if bounce then scan_dir s * (- 1) else scan_dir s);
          pan' = (if bounce then pan1 + real_of_int (SCAN_STEP * dir') else pan1);
          t_norm = (pan' - PAN_CENTER) / SCAN_RANGE_PAN;
          tilt1 = TILT_CENTER + SCAN_RANGE_TILT * sin (pi * SCAN_WAVES * t_norm);
          tilt' = max TILT_MIN (min TILT_MAX tilt1)
      in (s\<lparr>pan := pan', tilt := tilt', scan_dir := dir'\<rparr>,
          [set_angle PAN_CH pan', set_angle TILT_CH tilt'],
          [SCAN_DELAY]))"

text \<open>Lines 356 to 361.\<close>

definition status_text :: "bool \<Rightarrow> real \<Rightarrow> string" where
  "status_text det elapsed =
     (if det then ''Tracking''
      else if elapsed < LOST_TIMEOUT then ''Target lost (hold)''
      else ''Scanning'')"

text \<open>
  Lines 206 to 272 of the loop body: the face pass, the remembered face, the target.
  The result is the state with the new mode, and \<open>(best_box, best_conf)\<close>.
\<close>

definition detect_stage :: "state \<Rightarrow> frame_in \<Rightarrow> state \<times> box option \<times> real" where
  "detect_stage s f =
     (case face_loop (det_f f) (None, 0) of
        (best_face, best_fconf) \<Rightarrow>
          (let s1 = remember_face s best_face (t_face f)
           in case select_target s1 best_fconf f of
                (m, bb, bc) \<Rightarrow> (s1\<lparr>tracking_mode := m\<rparr>, bb, bc)))"

text \<open>
  Lines 275 to 314: track when there is a target, otherwise scan once the target has
  been lost for longer than \<open>LOST_TIMEOUT\<close>, otherwise do nothing.
\<close>

definition act_stage ::
  "state \<Rightarrow> box option \<Rightarrow> real \<Rightarrow> frame_in \<Rightarrow> state \<times> (nat \<times> int) list \<times> real list" where
  "act_stage s bb bc f =
     (case bb of
        Some b \<Rightarrow> (case track s b bc (t_seen f) of (s', cs) \<Rightarrow> (s', cs, []))
      | None \<Rightarrow>
          (if t_now f - last_seen s > LOST_TIMEOUT then scan_step s else (s, [], [])))"

text \<open>
  Lines 206 to 392: what the loop body does with a captured frame. The result is the new
  state and the values drawn on the frame and sent to the servos. The drawing and the
  JPEG encoding write no variable of the state and are left out.
\<close>

definition process_frame :: "state \<Rightarrow> frame_in \<Rightarrow> state \<times> hud" where
  "process_frame s f =
     (case detect_stage s f of
        (s2, bb, bc) \<Rightarrow>
          (case act_stage s2 bb bc f of
             (s3, cs, zs) \<Rightarrow>
               (s3,
                \<lparr>best_box = bb, best_conf = bc, detected = (bb \<noteq> None),
                 status = status_text (bb \<noteq> None) (t_status f - last_seen s3),
                 servo_cmds = cs, sleeps = zs\<rparr>)))"

text \<open>
  The body of \<^verbatim>\<open>while True\<close>. A failed capture sleeps half a second and continues
  with nothing else done.
\<close>

definition gen_frames_iter :: "state \<Rightarrow> capture \<Rightarrow> state \<times> outcome" where
  "gen_frames_iter s c =
     (case c of
        CaptureFailed \<Rightarrow> (s, Retry (1 / 2))
      | Captured f \<Rightarrow> (case process_frame s f of (s', h) \<Rightarrow> (s', Published h)))"

text \<open>
  The loop never returns; its behaviour is the sequence of states after each iteration.
  \<open>gen_frames s cs\<close> is the state after the iterations that consume the captures \<open>cs\<close>.
\<close>

fun gen_frames :: "state \<Rightarrow> capture list \<Rightarrow> state" where
  "gen_frames s [] = s"
| "gen_frames s (c # cs) = gen_frames (fst (gen_frames_iter s c)) cs"

subsection \<open>The loop over the tilt direction\<close>

text \<open>
  \<open>TILT_DIR\<close> is the setting the script tells its user to flip for an inverted rig, and
  the specification states a scenario for the direction +1. The functions below are the
  tracking branch, the action stage, the loop body and the loop with the tilt direction
  as the parameter \<open>td\<close> in the place of \<open>TILT_DIR\<close> (line 289), and nothing else
  changed; at \<open>td = TILT_DIR\<close> they are the functions above.
\<close>

definition track_with :: "int \<Rightarrow> state \<Rightarrow> box \<Rightarrow> real \<Rightarrow> real \<Rightarrow> state \<times> (nat \<times> int) list" where
  "track_with td s b conf t =
     (case b of (x1, y1, x2, y2) \<Rightarrow>
       (let fx = (x1 + x2) div 2;
            fy = (y1 + y2) div 2;
            err_x = fx - CX;
            pan' = (if \<bar>err_x\<bar> > CENTER_TOL_X
                    then max PAN_MIN (min PAN_MAX (pan s - real_of_int err_x * GAIN_PAN))
                    else pan s);
            cmd_x = (if \<bar>err_x\<bar> > CENTER_TOL_X then [set_angle PAN_CH pan'] else []);
            err_y = fy - CY;
            tilt' = (if \<bar>err_y\<bar> > CENTER_TOL_Y
                     then max TILT_MIN
                            (min TILT_MAX (tilt s + real_of_int (td * err_y) * GAIN_TILT))
                     else tilt s);
            cmd_y = (if \<bar>err_y\<bar> > CENTER_TOL_Y then [set_angle TILT_CH tilt'] else [])
        in (s\<lparr>pan := pan', tilt := tilt', last_seen := t, last_conf := conf,
               last_fx := fx, last_fy := fy\<rparr>,
            cmd_x @ cmd_y)))"

definition act_stage_with ::
  "int \<Rightarrow> state \<Rightarrow> box option \<Rightarrow> real \<Rightarrow> frame_in \<Rightarrow> state \<times> (nat \<times> int) list \<times> real list" where
  "act_stage_with td s bb bc f =
     (case bb of
        Some b \<Rightarrow> (case track_with td s b bc (t_seen f) of (s', cs) \<Rightarrow> (s', cs, []))
      | None \<Rightarrow>
          (if t_now f - last_seen s > LOST_TIMEOUT then scan_step s else (s, [], [])))"

definition process_frame_with :: "int \<Rightarrow> state \<Rightarrow> frame_in \<Rightarrow> state \<times> hud" where
  "process_frame_with td s f =
     (case detect_stage s f of
        (s2, bb, bc) \<Rightarrow>
          (case act_stage_with td s2 bb bc f of
             (s3, cs, zs) \<Rightarrow>
               (s3,
                \<lparr>best_box = bb, best_conf = bc, detected = (bb \<noteq> None),
                 status = status_text (bb \<noteq> None) (t_status f - last_seen s3),
                 servo_cmds = cs, sleeps = zs\<rparr>)))"

definition gen_frames_iter_with :: "int \<Rightarrow> state \<Rightarrow> capture \<Rightarrow> state \<times> outcome" where
  "gen_frames_iter_with td s c =
     (case c of
        CaptureFailed \<Rightarrow> (s, Retry (1 / 2))
      | Captured f \<Rightarrow> (case process_frame_with td s f of (s', h) \<Rightarrow> (s', Published h)))"

fun gen_frames_with :: "int \<Rightarrow> state \<Rightarrow> capture list \<Rightarrow> state" where
  "gen_frames_with td s [] = s"
| "gen_frames_with td s (c # cs) = gen_frames_with td (fst (gen_frames_iter_with td s c)) cs"

section \<open>Predicates and example inputs of the specification\<close>

text \<open>The commanded pose lies within the mechanical limits of both axes.\<close>

definition pose_ok :: "state \<Rightarrow> bool" where
  "pose_ok s =
     (PAN_MIN \<le> pan s \<and> pan s \<le> PAN_MAX \<and> TILT_MIN \<le> tilt s \<and> tilt s \<le> TILT_MAX)"


text \<open>
  The value of the variable \<^verbatim>\<open>use_face\<close> in the iteration that starts in state \<open>s\<close>
  and captures \<open>f\<close>: the face-hold window is active.
\<close>

definition frame_use_face :: "state \<Rightarrow> frame_in \<Rightarrow> bool" where
  "frame_use_face s f =
     use_face (remember_face s (fst (face_loop (det_f f) (None, 0))) (t_face f)) (t_use f)"

text \<open>
  The body filters in the specification's words: the class is the person class, the
  confidence is at least the body threshold, and the pixel area is at least
  \<open>MIN_BODY_FRAC\<close> times the frame area.
\<close>

definition qualifying_body :: "det \<Rightarrow> bool" where
  "qualifying_body d =
     (py_int (det_cls d) = PERSON_CLASS \<and> PERSON_CONF \<le> det_conf d \<and>
      MIN_BODY_FRAC * real_of_int CAM_W * real_of_int CAM_H
        \<le> real_of_int (box_area (scale_box d)))"

text \<open>
  Example inputs. The box fractions are chosen half a pixel inside the intended corner,
  so that the truncation gives the stated box.
  \<^item> \<open>face_frame\<close>: one face row of confidence 0.9 with box \<open>(140, 100, 180, 140)\<close>,
    centre \<open>(160, 120)\<close>; every clock reading at 10 s.
  \<^item> \<open>centred_frame\<close>: one face row of confidence 0.9 with box \<open>(130, 92, 170, 132)\<close>,
    centre \<open>(150, 112)\<close>, the image centre.
  \<^item> \<open>body_frame\<close>: a face row of confidence 0.3, and three body rows: class 7 with
    confidence 0.95, class 15 (person) with confidence 0.9 and box \<open>(100, 50, 200, 200)\<close>,
    class 15 with confidence 0.6.
  \<^item> \<open>empty_frame t\<close>: no detector rows; every clock reading at \<open>t\<close>.
  \<^item> \<open>at_pan_max\<close>: the state after 70 iterations on \<open>empty_frame 20\<close> from the
    initial state; each of them is a scan step, and the pan has reached its upper limit.
  \<^item> \<open>after_face\<close>: the state after the first iteration on \<open>face_frame\<close>.
  \<^item> \<open>pan_floor td\<close>: the state after 140 iterations on \<open>face_frame\<close> from the initial
    state, with tilt direction \<open>td\<close>; each of them lowers the pan by 0.5, down to its
    lower limit.
\<close>

definition face_frame :: frame_in where
  "face_frame =
     \<lparr>det_f = [Det 1 (9 / 10) (281 / 600) (67 / 150) (361 / 600) (281 / 450)],
      det_p = [], t_face = 10, t_use = 10, t_seen = 10, t_now = 10, t_status = 10\<rparr>"

definition centred_frame :: frame_in where
  "centred_frame =
     \<lparr>det_f = [Det 1 (9 / 10) (87 / 200) (37 / 90) (341 / 600) (53 / 90)],
      det_p = [], t_face = 10, t_use = 10, t_seen = 10, t_now = 10, t_status = 10\<rparr>"

definition body_frame :: frame_in where
  "body_frame =
     \<lparr>det_f = [Det 1 (3 / 10) (281 / 600) (67 / 150) (361 / 600) (281 / 450)],
      det_p = [Det 7 (95 / 100) (67 / 200) (101 / 450) (401 / 600) (401 / 450),
               Det 15 (9 / 10) (67 / 200) (101 / 450) (401 / 600) (401 / 450),
               Det 15 (6 / 10) (1 / 600) (1 / 450) (401 / 600) (401 / 450)],
      t_face = 10, t_use = 10, t_seen = 10, t_now = 10, t_status = 10\<rparr>"

definition empty_frame :: "real \<Rightarrow> frame_in" where
  "empty_frame t =
     \<lparr>det_f = [], det_p = [], t_face = t, t_use = t, t_seen = t, t_now = t, t_status = t\<rparr>"

definition at_pan_max :: state where
  "at_pan_max = gen_frames init_state (replicate 70 (Captured (empty_frame 20)))"

definition after_face :: state where
  "after_face =
     \<lparr>pan = 179 / 2, tilt = 90, scan_dir = 1, last_seen = 10,
      last_face_time = 10, last_face_box = Some (140, 100, 180, 140), last_conf = 9 / 10,
      last_fx = 160, last_fy = 120, tracking_mode = ''face''\<rparr>"

definition pan_floor :: "int \<Rightarrow> state" where
  "pan_floor td = gen_frames_with td init_state (replicate 140 (Captured face_frame))"

section \<open>Auxiliary facts\<close>

lemmas config_defs = PAN_CH_def TILT_CH_def PAN_MIN_def PAN_MAX_def TILT_MIN_def TILT_MAX_def
  PAN_CENTER_def TILT_CENTER_def TILT_DIR_def SCAN_RANGE_PAN_def SCAN_RANGE_TILT_def
  SCAN_STEP_def SCAN_DELAY_def SCAN_WAVES_def CENTER_TOL_X_def CENTER_TOL_Y_def GAIN_PAN_def
  GAIN_TILT_def LOST_TIMEOUT_def CAM_W_def CAM_H_def FACE_CONF_def MIN_FACE_PIX_def
  FACE_HOLD_SEC_def PERSON_CLASS_def PERSON_CONF_def MIN_BODY_FRAC_def CX_def CY_def

lemma limits_ordered: "PAN_MIN \<le> PAN_MAX" "TILT_MIN \<le> TILT_MAX"
  by (simp_all add: PAN_MIN_def PAN_MAX_def TILT_MIN_def TILT_MAX_def)

lemma clamp_between:
  "lo \<le> hi \<Longrightarrow> lo \<le> max lo (min hi (x::real)) \<and> max lo (min hi x) \<le> hi"
  by (simp add: max_def min_def)

subsection \<open>The two motions\<close>

lemma track_pan:
  "pan (fst (track s (x1, y1, x2, y2) c t)) =
     (if \<bar>(x1 + x2) div 2 - CX\<bar> > CENTER_TOL_X
      then max PAN_MIN (min PAN_MAX (pan s - real_of_int ((x1 + x2) div 2 - CX) * GAIN_PAN))
      else pan s)"
  by (simp add: track_def Let_def)

lemma track_tilt:
  "tilt (fst (track s (x1, y1, x2, y2) c t)) =
     (if \<bar>(y1 + y2) div 2 - CY\<bar> > CENTER_TOL_Y
      then max TILT_MIN
             (min TILT_MAX
                (tilt s + real_of_int (TILT_DIR * ((y1 + y2) div 2 - CY)) * GAIN_TILT))
      else tilt s)"
  by (simp add: track_def Let_def)

lemma track_pose: "pose_ok s \<Longrightarrow> pose_ok (fst (track s b c t))"
proof -
  assume ok: "pose_ok s"
  obtain x1 y1 x2 y2 where b: "b = (x1, y1, x2, y2)" by (cases b) auto
  show ?thesis
    unfolding b pose_ok_def track_pan track_tilt
    using ok clamp_between[OF limits_ordered(1)] clamp_between[OF limits_ordered(2)]
    by (simp add: pose_ok_def)
qed

lemma scan_pan:
  "pan (fst (scan_step s)) =
     (let pan1 = pan s + real_of_int (SCAN_STEP * scan_dir s)
      in if pan1 > PAN_MAX \<or> pan1 < PAN_MIN then pan s else pan1)"
  by (simp add: scan_step_def Let_def algebra_simps)

lemma scan_dir_step:
  "scan_dir (fst (scan_step s)) =
     (let pan1 = pan s + real_of_int (SCAN_STEP * scan_dir s)
      in if pan1 > PAN_MAX \<or> pan1 < PAN_MIN then - scan_dir s else scan_dir s)"
  by (simp add: scan_step_def Let_def)

lemma scan_tilt: "TILT_MIN \<le> tilt (fst (scan_step s)) \<and> tilt (fst (scan_step s)) \<le> TILT_MAX"
  using clamp_between[OF limits_ordered(2)] by (simp add: scan_step_def Let_def)

lemma scan_pose: "pose_ok s \<Longrightarrow> pose_ok (fst (scan_step s))"
  using scan_tilt[of s] by (auto simp: pose_ok_def scan_pan Let_def)

subsection \<open>The stages of one iteration\<close>

lemma remember_face_fields:
  "pan (remember_face s bf t) = pan s" "tilt (remember_face s bf t) = tilt s"
  "scan_dir (remember_face s bf t) = scan_dir s"
  "last_seen (remember_face s bf t) = last_seen s"
  "last_conf (remember_face s bf t) = last_conf s"
  "last_fx (remember_face s bf t) = last_fx s" "last_fy (remember_face s bf t) = last_fy s"
  by (simp_all add: remember_face_def split: option.splits)

lemma detect_stage_fields:
  "pan (fst (detect_stage s f)) = pan s" "tilt (fst (detect_stage s f)) = tilt s"
  "scan_dir (fst (detect_stage s f)) = scan_dir s"
  "last_seen (fst (detect_stage s f)) = last_seen s"
  "last_conf (fst (detect_stage s f)) = last_conf s"
  "last_fx (fst (detect_stage s f)) = last_fx s" "last_fy (fst (detect_stage s f)) = last_fy s"
  by (simp_all add: detect_stage_def Let_def remember_face_fields split: prod.splits)

lemma act_stage_state:
  "fst (act_stage s bb bc f) =
     (case bb of Some b \<Rightarrow> fst (track s b bc (t_seen f))
      | None \<Rightarrow> if t_now f - last_seen s > LOST_TIMEOUT then fst (scan_step s) else s)"
  by (simp add: act_stage_def split: option.splits prod.splits)

lemma act_stage_out:
  "snd (act_stage s bb bc f) =
     (case bb of Some b \<Rightarrow> (snd (track s b bc (t_seen f)), [])
      | None \<Rightarrow> if t_now f - last_seen s > LOST_TIMEOUT then snd (scan_step s) else ([], []))"
  by (simp add: act_stage_def split: option.splits prod.splits)

lemma process_frame_state:
  "fst (process_frame s f) =
     fst (act_stage (fst (detect_stage s f)) (fst (snd (detect_stage s f)))
            (snd (snd (detect_stage s f))) f)"
  by (simp add: process_frame_def split: prod.splits)

lemma process_frame_hud:
  "snd (process_frame s f) =
     \<lparr>best_box = fst (snd (detect_stage s f)), best_conf = snd (snd (detect_stage s f)),
      detected = (fst (snd (detect_stage s f)) \<noteq> None),
      status = status_text (fst (snd (detect_stage s f)) \<noteq> None)
                 (t_status f - last_seen (fst (process_frame s f))),
      servo_cmds = fst (snd (act_stage (fst (detect_stage s f))
          (fst (snd (detect_stage s f))) (snd (snd (detect_stage s f))) f)),
      sleeps = snd (snd (act_stage (fst (detect_stage s f))
          (fst (snd (detect_stage s f))) (snd (snd (detect_stage s f))) f))\<rparr>"
  by (simp add: process_frame_def split: prod.splits)

lemma frame_target:
  "best_box (snd (process_frame s f)) = fst (snd (detect_stage s f))"
  "best_conf (snd (process_frame s f)) = snd (snd (detect_stage s f))"
  "detected (snd (process_frame s f)) = (fst (snd (detect_stage s f)) \<noteq> None)"
  by (simp_all add: process_frame_hud)

lemma frame_status:
  "status (snd (process_frame s f)) =
     status_text (fst (snd (detect_stage s f)) \<noteq> None)
       (t_status f - last_seen (fst (process_frame s f)))"
  by (simp add: process_frame_hud)

lemma frame_output:
  "(servo_cmds (snd (process_frame s f)), sleeps (snd (process_frame s f))) =
     snd (act_stage (fst (detect_stage s f)) (fst (snd (detect_stage s f)))
            (snd (snd (detect_stage s f))) f)"
  by (simp add: process_frame_hud)

lemma iter_captured:
  "gen_frames_iter s (Captured f) = (fst (process_frame s f), Published (snd (process_frame s f)))"
  by (simp add: gen_frames_iter_def split: prod.splits)

lemma act_stage_pose: "pose_ok s \<Longrightarrow> pose_ok (fst (act_stage s bb bc f))"
  by (simp add: act_stage_state track_pose scan_pose split: option.splits)

lemma iter_pose: "pose_ok s \<Longrightarrow> pose_ok (fst (gen_frames_iter s c))"
proof (cases c)
  case CaptureFailed
  assume "pose_ok s"
  then show ?thesis using CaptureFailed by (simp add: gen_frames_iter_def)
next
  case (Captured f)
  assume "pose_ok s"
  then have "pose_ok (fst (detect_stage s f))"
    by (simp add: pose_ok_def detect_stage_fields)
  then show ?thesis
    unfolding Captured iter_captured by (simp add: process_frame_state act_stage_pose)
qed

lemma tracked_state:
  "fst (snd (detect_stage s f)) = Some b \<Longrightarrow>
   fst (process_frame s f) =
     fst (track (fst (detect_stage s f)) b (snd (snd (detect_stage s f))) (t_seen f))"
  by (simp add: process_frame_state act_stage_state)

lemma track_face_fields:
  "last_face_box (fst (track s b c t)) = last_face_box s"
  "last_face_time (fst (track s b c t)) = last_face_time s"
  "tracking_mode (fst (track s b c t)) = tracking_mode s"
  by (simp_all add: track_def Let_def split: prod.splits)

lemma track_last:
  "last_fx (fst (track s (x1, y1, x2, y2) c t)) = (x1 + x2) div 2"
  "last_fy (fst (track s (x1, y1, x2, y2) c t)) = (y1 + y2) div 2"
  "last_conf (fst (track s (x1, y1, x2, y2) c t)) = c"
  "last_seen (fst (track s (x1, y1, x2, y2) c t)) = t"
  by (simp_all add: track_def Let_def)

lemma scan_face_fields:
  "last_face_box (fst (scan_step s)) = last_face_box s"
  "last_face_time (fst (scan_step s)) = last_face_time s"
  "tracking_mode (fst (scan_step s)) = tracking_mode s"
  by (simp_all add: scan_step_def Let_def)

lemma act_stage_face_fields:
  "last_face_box (fst (act_stage s bb bc f)) = last_face_box s"
  "last_face_time (fst (act_stage s bb bc f)) = last_face_time s"
  "tracking_mode (fst (act_stage s bb bc f)) = tracking_mode s"
  by (simp_all add: act_stage_state track_face_fields scan_face_fields split: option.splits)

lemma frame_mode:
  "tracking_mode (fst (process_frame s f)) = tracking_mode (fst (detect_stage s f))"
  by (simp add: process_frame_state act_stage_face_fields)

subsection \<open>The face loop and the remembered face\<close>

lemma face_loop_none: "fst (face_loop ds acc) = None \<Longrightarrow> face_loop ds acc = acc"
proof (induction ds arbitrary: acc)
  case Nil
  then show ?case by simp
next
  case (Cons d ds)
  obtain bf bc where acc: "acc = (bf, bc)" by (cases acc)
  show ?case
  proof (cases "\<not> det_conf d < FACE_CONF \<and> \<not> box_area (scale_box d) < MIN_FACE_PIX \<and> det_conf d > bc")
    case True
    then have step: "face_loop (d # ds) acc = face_loop ds (Some (scale_box d), det_conf d)"
      by (simp add: acc)
    with Cons.prems have "fst (face_loop ds (Some (scale_box d), det_conf d)) = None" by simp
    from Cons.IH[OF this] this show ?thesis by simp
  next
    case False
    then have step: "face_loop (d # ds) acc = face_loop ds acc"
      by (auto simp: acc)
    with Cons.prems Cons.IH[of acc] show ?thesis by simp
  qed
qed





text \<open>
  The detection stage of a frame without accepted face, on a state whose remembered face
  is still fresh.
\<close>

lemma detect_stage_held:
  assumes "fst (face_loop (det_f f) (None, 0)) = None"
      and "last_face_box s = Some b"
      and "t_use f - last_face_time s < FACE_HOLD_SEC"
  shows "detect_stage s f = (s\<lparr>tracking_mode := ''face''\<rparr>, Some b, 0)"
proof -
  from face_loop_none[OF assms(1)] have fl: "face_loop (det_f f) (None, 0) = (None, 0)" .
  have uf: "use_face s (t_use f)" using assms(2,3) by (simp add: use_face_def)
  show ?thesis
    by (simp add: detect_stage_def fl remember_face_def select_target_def uf Let_def assms(2))
qed

lemma frame_held:
  assumes "fst (face_loop (det_f f) (None, 0)) = None"
      and "last_face_box s = Some (x1, y1, x2, y2)"
      and "t_use f - last_face_time s < FACE_HOLD_SEC"
  shows "tracking_mode (fst (process_frame s f)) = ''face'' \<and>
         last_fx (fst (process_frame s f)) = (x1 + x2) div 2 \<and>
         last_fy (fst (process_frame s f)) = (y1 + y2) div 2 \<and>
         last_conf (fst (process_frame s f)) = 0 \<and>
         best_box (snd (process_frame s f)) = Some (x1, y1, x2, y2) \<and>
         best_conf (snd (process_frame s f)) = 0 \<and>
         detected (snd (process_frame s f)) \<and>
         status (snd (process_frame s f)) = ''Tracking''"
  unfolding frame_target frame_status process_frame_state detect_stage_held[OF assms]
  by (simp add: act_stage_state track_last track_face_fields status_text_def)

subsection \<open>The body loop\<close>

lemma body_loop_skip:
  "\<not> qualifying_body d \<Longrightarrow> body_loop (d # ds) acc = body_loop ds acc"
  by (cases acc) (auto simp: qualifying_body_def)

lemma body_loop_take:
  "qualifying_body d \<Longrightarrow>
     body_loop (d # ds) (bb, bc) =
       (if det_conf d > bc then body_loop ds (Some (scale_box d), det_conf d)
        else body_loop ds (bb, bc))"
  by (auto simp: qualifying_body_def)

lemma body_loop_result:
  "(body_loop ds (bb, bc) = (bb, bc) \<and> (\<forall>e\<in>set ds. qualifying_body e \<longrightarrow> det_conf e \<le> bc))
   \<or> (\<exists>d\<in>set ds. qualifying_body d \<and> bc < det_conf d \<and>
         body_loop ds (bb, bc) = (Some (scale_box d), det_conf d) \<and>
         (\<forall>e\<in>set ds. qualifying_body e \<longrightarrow> det_conf e \<le> det_conf d))"
proof (induction ds arbitrary: bb bc)
  case Nil
  then show ?case by simp
next
  case (Cons d ds)
  show ?case
  proof (cases "qualifying_body d \<and> bc < det_conf d")
    case True
    then have q: "qualifying_body d" and lt: "bc < det_conf d" by simp_all
    have step: "body_loop (d # ds) (bb, bc) = body_loop ds (Some (scale_box d), det_conf d)"
      using lt by (simp only: body_loop_take[OF q] if_True)
    from Cons.IH[of "Some (scale_box d)" "det_conf d"] show ?thesis
    proof
      assume "body_loop ds (Some (scale_box d), det_conf d) = (Some (scale_box d), det_conf d) \<and>
              (\<forall>e\<in>set ds. qualifying_body e \<longrightarrow> det_conf e \<le> det_conf d)"
      with True step show ?thesis by auto
    next
      assume "\<exists>d'\<in>set ds. qualifying_body d' \<and> det_conf d < det_conf d' \<and>
                body_loop ds (Some (scale_box d), det_conf d) = (Some (scale_box d'), det_conf d') \<and>
                (\<forall>e\<in>set ds. qualifying_body e \<longrightarrow> det_conf e \<le> det_conf d')"
      then obtain d' where d': "d' \<in> set ds" "qualifying_body d'" "det_conf d < det_conf d'"
          "body_loop ds (Some (scale_box d), det_conf d) = (Some (scale_box d'), det_conf d')"
          "\<forall>e\<in>set ds. qualifying_body e \<longrightarrow> det_conf e \<le> det_conf d'"
        by blast
      have "bc < det_conf d'" using True d'(3) by simp
      moreover have "\<forall>e\<in>set (d # ds). qualifying_body e \<longrightarrow> det_conf e \<le> det_conf d'"
        using d'(3,5) by auto
      ultimately show ?thesis using d' step by auto
    qed
  next
    case False
    have step: "body_loop (d # ds) (bb, bc) = body_loop ds (bb, bc)"
    proof (cases "qualifying_body d")
      case True
      with False have "\<not> bc < det_conf d" by simp
      then show ?thesis by (simp only: body_loop_take[OF True] if_False)
    next
      case False
      then show ?thesis by (rule body_loop_skip)
    qed
    have dle: "qualifying_body d \<longrightarrow> det_conf d \<le> bc" using False by auto
    from Cons.IH[of bb bc] show ?thesis
    proof
      assume "body_loop ds (bb, bc) = (bb, bc) \<and> (\<forall>e\<in>set ds. qualifying_body e \<longrightarrow> det_conf e \<le> bc)"
      with step dle show ?thesis by auto
    next
      assume "\<exists>d'\<in>set ds. qualifying_body d' \<and> bc < det_conf d' \<and>
                body_loop ds (bb, bc) = (Some (scale_box d'), det_conf d') \<and>
                (\<forall>e\<in>set ds. qualifying_body e \<longrightarrow> det_conf e \<le> det_conf d')"
      then obtain d' where d': "d' \<in> set ds" "qualifying_body d'" "bc < det_conf d'"
          "body_loop ds (bb, bc) = (Some (scale_box d'), det_conf d')"
          "\<forall>e\<in>set ds. qualifying_body e \<longrightarrow> det_conf e \<le> det_conf d'"
        by blast
      have "\<forall>e\<in>set (d # ds). qualifying_body e \<longrightarrow> det_conf e \<le> det_conf d'"
        using d'(3,5) dle by auto
      then show ?thesis using d' step by auto
    qed
  qed
qed

lemma qualifying_positive: "qualifying_body d \<Longrightarrow> 0 < det_conf d"
  by (simp add: qualifying_body_def PERSON_CONF_def)

text \<open>The body loop as the iteration starts it.\<close>

lemma body_loop_fresh:
  "(body_loop ds (None, 0) = (None, 0) \<and> (\<forall>e\<in>set ds. \<not> qualifying_body e))
   \<or> (\<exists>d\<in>set ds. qualifying_body d \<and>
         body_loop ds (None, 0) = (Some (scale_box d), det_conf d) \<and>
         (\<forall>e\<in>set ds. qualifying_body e \<longrightarrow> det_conf e \<le> det_conf d))"
  using body_loop_result[of ds None 0] qualifying_positive by fastforce

lemma detect_stage_no_face:
  assumes "\<not> frame_use_face s f"
  shows "snd (detect_stage s f) = body_loop (det_p f) (None, 0) \<and>
         tracking_mode (fst (detect_stage s f)) =
           (if fst (body_loop (det_p f) (None, 0)) \<noteq> None then ''body'' else ''none'')"
proof -
  obtain bf bfc where fl: "face_loop (det_f f) (None, 0) = (bf, bfc)"
    by (cases "face_loop (det_f f) (None, 0)")
  obtain bb bc where bl: "body_loop (det_p f) (None, 0) = (bb, bc)"
    by (cases "body_loop (det_p f) (None, 0)")
  from assms have nu: "\<not> use_face (remember_face s bf (t_face f)) (t_use f)"
    by (simp add: frame_use_face_def fl)
  show ?thesis
    by (simp add: detect_stage_def fl select_target_def Let_def nu bl)
qed

subsection \<open>The example inputs\<close>

lemma face_frame_accepts:
  "face_loop (det_f face_frame) (None, 0) = (Some (140, 100, 180, 140), 9 / 10)"
  by (simp add: face_frame_def scale_box_def py_int_def box_area_def config_defs)

lemma centred_frame_accepts:
  "face_loop (det_f centred_frame) (None, 0) = (Some (130, 92, 170, 132), 9 / 10)"
  by (simp add: centred_frame_def scale_box_def py_int_def box_area_def config_defs)

lemma detect_fresh_face:
  assumes "face_loop (det_f f) (None, 0) = (Some b, c)" and "t_use f - t_face f < FACE_HOLD_SEC"
  shows "detect_stage s f =
           (s\<lparr>last_face_box := Some b, last_face_time := t_face f, tracking_mode := ''face''\<rparr>,
            Some b, c)"
proof -
  have uf: "use_face (remember_face s (Some b) (t_face f)) (t_use f)"
    using assms(2) by (simp add: use_face_def remember_face_def)
  have "detect_stage s f =
          ((remember_face s (Some b) (t_face f))\<lparr>tracking_mode := ''face''\<rparr>,
           last_face_box (remember_face s (Some b) (t_face f)), c)"
    by (simp add: detect_stage_def assms(1) select_target_def Let_def uf)
  then show ?thesis by (simp add: remember_face_def)
qed

lemma detect_face_frame:
  "detect_stage init_state face_frame =
     (init_state\<lparr>last_face_box := Some (140, 100, 180, 140), last_face_time := 10,
                  tracking_mode := ''face''\<rparr>,
      Some (140, 100, 180, 140), 9 / 10)"
proof -
  have "t_use face_frame - t_face face_frame < FACE_HOLD_SEC"
    by (simp add: face_frame_def FACE_HOLD_SEC_def)
  from detect_fresh_face[OF face_frame_accepts this, of init_state] show ?thesis
    by (simp add: face_frame_def)
qed

lemma state_face_frame: "fst (process_frame init_state face_frame) = after_face"
  by (simp add: process_frame_state detect_face_frame act_stage_state track_def Let_def)
     (simp add: init_state_def face_frame_def after_face_def config_defs)

lemma run_face_frame: "gen_frames init_state [Captured face_frame] = after_face"
  by (simp add: iter_captured state_face_frame)

lemma detect_empty_frame:
  "\<not> use_face s t \<Longrightarrow> detect_stage s (empty_frame t) = (s\<lparr>tracking_mode := ''none''\<rparr>, None, 0)"
  by (simp add: detect_stage_def empty_frame_def remember_face_def select_target_def Let_def)

lemma gen_frames_snoc:
  "gen_frames s (cs @ [c]) = fst (gen_frames_iter (gen_frames s cs) c)"
  by (induction cs arbitrary: s) simp_all

lemma scan_keeps:
  "last_seen (fst (scan_step s)) = last_seen s"
  by (simp add: scan_step_def Let_def)

lemma scan_run:
  "n \<le> 70 \<Longrightarrow>
     pan (gen_frames init_state (replicate n (Captured (empty_frame 20)))) = 90 + real n \<and>
     scan_dir (gen_frames init_state (replicate n (Captured (empty_frame 20)))) = 1 \<and>
     last_seen (gen_frames init_state (replicate n (Captured (empty_frame 20)))) = 0 \<and>
     last_face_box (gen_frames init_state (replicate n (Captured (empty_frame 20)))) = None"
proof (induction n)
  case 0
  then show ?case by (simp add: init_state_def config_defs)
next
  case (Suc n)
  let ?s = "gen_frames init_state (replicate n (Captured (empty_frame 20)))"
  from Suc have ih: "pan ?s = 90 + real n" "scan_dir ?s = 1" "last_seen ?s = 0"
      "last_face_box ?s = None" and n: "n < 70"
    by simp_all
  have u: "\<not> use_face ?s 20" by (simp add: use_face_def ih)
  have ds: "detect_stage ?s (empty_frame 20) = (?s\<lparr>tracking_mode := ''none''\<rparr>, None, 0)"
    by (rule detect_empty_frame[OF u])
  have t: "t_now (empty_frame 20) - last_seen ?s > LOST_TIMEOUT"
    unfolding ih(3) by (simp add: empty_frame_def LOST_TIMEOUT_def)
  have st: "fst (process_frame ?s (empty_frame 20)) = fst (scan_step (?s\<lparr>tracking_mode := ''none''\<rparr>))"
    using t by (simp add: process_frame_state ds act_stage_state)
  have run: "gen_frames init_state (replicate (Suc n) (Captured (empty_frame 20))) =
             fst (scan_step (?s\<lparr>tracking_mode := ''none''\<rparr>))"
  proof -
    have "replicate (Suc n) (Captured (empty_frame 20)) =
          replicate n (Captured (empty_frame 20)) @ [Captured (empty_frame 20)]"
      by (simp add: replicate_append_same)
    then show ?thesis by (simp only: gen_frames_snoc iter_captured st fst_conv)
  qed
  show ?case
    unfolding run using ih n
    by (simp add: scan_pan scan_dir_step scan_keeps scan_face_fields Let_def config_defs)
qed

lemma at_pan_max_fields:
  "pan at_pan_max = PAN_MAX" "scan_dir at_pan_max = 1" "last_seen at_pan_max = 0"
  "last_face_box at_pan_max = None"
  using scan_run[of 70] by (simp_all add: at_pan_max_def PAN_MAX_def)

lemma body_frame_boxes:
  "scale_box (Det 15 (9 / 10) (67 / 200) (101 / 450) (401 / 600) (401 / 450)) = (100, 50, 200, 200)"
  "scale_box (Det 15 (6 / 10) (1 / 600) (1 / 450) (401 / 600) (401 / 450)) = (0, 0, 200, 200)"
  by (simp_all add: scale_box_def py_int_def config_defs)

lemma body_frame_qualifies:
  "qualifying_body (Det 15 (9 / 10) (67 / 200) (101 / 450) (401 / 600) (401 / 450))"
  by (simp add: qualifying_body_def body_frame_boxes box_area_def) (simp add: py_int_def config_defs)

subsection \<open>The loop over the tilt direction\<close>

lemma track_with_config: "track_with TILT_DIR s b conf t = track s b conf t"
  by (simp add: track_with_def track_def)

lemma act_stage_with_config: "act_stage_with TILT_DIR s bb bc f = act_stage s bb bc f"
  by (cases bb) (simp_all add: act_stage_with_def act_stage_def track_with_config)

lemma process_frame_with_config: "process_frame_with TILT_DIR s f = process_frame s f"
  by (simp add: process_frame_with_def process_frame_def act_stage_with_config)

lemma gen_frames_iter_with_config: "gen_frames_iter_with TILT_DIR s c = gen_frames_iter s c"
  by (cases c) (simp_all add: gen_frames_iter_with_def gen_frames_iter_def process_frame_with_config)

lemma gen_frames_with_config: "gen_frames_with TILT_DIR s cs = gen_frames s cs"
  by (induction cs arbitrary: s) (simp_all add: gen_frames_iter_with_config)

lemma track_with_pan:
  "pan (fst (track_with td s (x1, y1, x2, y2) c t)) =
     (if \<bar>(x1 + x2) div 2 - CX\<bar> > CENTER_TOL_X
      then max PAN_MIN (min PAN_MAX (pan s - real_of_int ((x1 + x2) div 2 - CX) * GAIN_PAN))
      else pan s)"
  by (simp add: track_with_def Let_def)

lemma track_with_tilt:
  "tilt (fst (track_with td s (x1, y1, x2, y2) c t)) =
     (if \<bar>(y1 + y2) div 2 - CY\<bar> > CENTER_TOL_Y
      then max TILT_MIN
             (min TILT_MAX (tilt s + real_of_int (td * ((y1 + y2) div 2 - CY)) * GAIN_TILT))
      else tilt s)"
  by (simp add: track_with_def Let_def)

lemma frame_with_target:
  "best_box (snd (process_frame_with td s f)) = fst (snd (detect_stage s f))"
  by (simp add: process_frame_with_def split: prod.splits)

lemma act_stage_with_state:
  "fst (act_stage_with td s bb bc f) =
     (case bb of Some b \<Rightarrow> fst (track_with td s b bc (t_seen f))
      | None \<Rightarrow> if t_now f - last_seen s > LOST_TIMEOUT then fst (scan_step s) else s)"
  by (simp add: act_stage_with_def split: option.splits prod.splits)

lemma process_frame_with_state:
  "fst (process_frame_with td s f) =
     fst (act_stage_with td (fst (detect_stage s f)) (fst (snd (detect_stage s f)))
            (snd (snd (detect_stage s f))) f)"
  by (simp add: process_frame_with_def split: prod.splits)

lemma tracked_with_state:
  "fst (snd (detect_stage s f)) = Some b \<Longrightarrow>
   fst (process_frame_with td s f) =
     fst (track_with td (fst (detect_stage s f)) b (snd (snd (detect_stage s f))) (t_seen f))"
  by (simp add: process_frame_with_state act_stage_with_state)

lemma gen_frames_with_snoc:
  "gen_frames_with td s (cs @ [c]) = fst (gen_frames_iter_with td (gen_frames_with td s cs) c)"
  by (induction cs arbitrary: s) simp_all

lemma face_frame_target:
  "fst (snd (detect_stage s face_frame)) = Some (140, 100, 180, 140)"
proof -
  have "t_use face_frame - t_face face_frame < FACE_HOLD_SEC"
    by (simp add: face_frame_def FACE_HOLD_SEC_def)
  from detect_fresh_face[OF face_frame_accepts this, of s] show ?thesis by simp
qed

lemma face_frame_pan:
  "pan (fst (process_frame_with td s face_frame)) = max PAN_MIN (min PAN_MAX (pan s - 1 / 2))"
  unfolding tracked_with_state[OF face_frame_target] track_with_pan
  by (simp add: detect_stage_fields config_defs)

lemma face_frame_tilt:
  "tilt (fst (process_frame_with td s face_frame)) = tilt s"
  unfolding tracked_with_state[OF face_frame_target] track_with_tilt
  by (simp add: detect_stage_fields config_defs)

lemma pan_run_down:
  "n \<le> 140 \<Longrightarrow>
     pan (gen_frames_with td init_state (replicate n (Captured face_frame))) = 90 - real n / 2"
proof (induction n)
  case 0
  then show ?case by (simp add: init_state_def config_defs)
next
  case (Suc n)
  let ?s = "gen_frames_with td init_state (replicate n (Captured face_frame))"
  from Suc have ih: "pan ?s = 90 - real n / 2" and n: "n < 140" by simp_all
  have "replicate (Suc n) (Captured face_frame) =
        replicate n (Captured face_frame) @ [Captured face_frame]"
    by (simp add: replicate_append_same)
  then have run: "gen_frames_with td init_state (replicate (Suc n) (Captured face_frame)) =
                  fst (process_frame_with td ?s face_frame)"
    by (simp only: gen_frames_with_snoc) (simp add: gen_frames_iter_with_def split: prod.splits)
  show ?case
    unfolding run face_frame_pan ih using n
    by (simp add: max_def min_def PAN_MIN_def PAN_MAX_def field_simps)
qed

lemma pan_floor_pan: "pan (pan_floor td) = PAN_MIN"
  using pan_run_down[of 140 td] by (simp add: pan_floor_def PAN_MIN_def)

section \<open>The claims\<close>

text \<open>
  C1. Whatever the loop reads (detections, clock readings, failed captures), a pose within
  the mechanical limits stays within them at the end of every iteration: tracking clamps
  both axes, a scan step either stays inside the pan limits or undoes its own move, and
  the scan tilt is clamped. The list \<open>cs\<close> is any finite prefix of the loop's inputs, so
  the statement covers the end of each iteration. The initial pose
  \<open>(PAN_CENTER, TILT_CENTER)\<close> is within the limits.
\<close>

theorem pose_within_limits: "pose_ok s \<Longrightarrow> pose_ok (gen_frames s cs)"
  by (induction cs arbitrary: s) (simp_all add: iter_pose)

theorem pose_within_limits_witness:
  "pose_ok init_state \<and>
   pose_ok (gen_frames init_state
      [Captured face_frame, CaptureFailed, Captured (empty_frame 20),
       Captured (empty_frame 21)])"
proof -
  have h: "pose_ok init_state"
    by (simp add: pose_ok_def init_state_def config_defs)
  from pose_within_limits[OF h] show ?thesis using h by blast
qed



text \<open>
  C3. Scan bounce at the upper pan limit. A scan step that starts at \<open>pan = PAN_MAX\<close>
  with \<open>scan_dir = 1\<close> first moves the pan to \<open>PAN_MAX + SCAN_STEP\<close>, which is outside
  the limits; the direction flips to \<open>- 1\<close> and the step is applied again in the new
  direction, from the overshot position. The step therefore ends at \<open>pan = PAN_MAX\<close>
  (not at \<open>PAN_MAX - SCAN_STEP\<close>) with \<open>scan_dir = - 1\<close>. The step is taken in a frame
  without target, once the target has been lost for longer than \<open>LOST_TIMEOUT\<close>.
\<close>

theorem scan_bounce_at_pan_max:
  assumes "pan s = PAN_MAX" and "scan_dir s = 1"
      and "best_box (snd (process_frame s f)) = None"
      and "t_now f - last_seen s > LOST_TIMEOUT"
  shows "scan_dir (fst (process_frame s f)) = - 1 \<and> pan (fst (process_frame s f)) = PAN_MAX"
proof -
  from assms(3) have none: "fst (snd (detect_stage s f)) = None"
    by (simp add: frame_target)
  have st: "fst (process_frame s f) = fst (scan_step (fst (detect_stage s f)))"
    using none assms(4) by (simp add: process_frame_state act_stage_state detect_stage_fields)
  show ?thesis
    unfolding st using assms(1,2)
    by (simp add: scan_pan scan_dir_step detect_stage_fields Let_def config_defs)
qed

theorem scan_bounce_at_pan_max_witness:
  "pan at_pan_max = PAN_MAX \<and> scan_dir at_pan_max = 1 \<and>
   best_box (snd (process_frame at_pan_max (empty_frame 20))) = None \<and>
   t_now (empty_frame 20) - last_seen at_pan_max > LOST_TIMEOUT \<and>
   scan_dir (fst (process_frame at_pan_max (empty_frame 20))) = - 1 \<and>
   pan (fst (process_frame at_pan_max (empty_frame 20))) = PAN_MAX"
proof -
  have p: "pan at_pan_max = PAN_MAX" and d: "scan_dir at_pan_max = 1"
    by (rule at_pan_max_fields)+
  have "\<not> use_face at_pan_max 20"
    by (simp add: use_face_def at_pan_max_fields)
  from detect_empty_frame[OF this]
  have b: "best_box (snd (process_frame at_pan_max (empty_frame 20))) = None"
    by (simp add: frame_target)
  have t: "t_now (empty_frame 20) - last_seen at_pan_max > LOST_TIMEOUT"
    unfolding at_pan_max_fields by (simp add: empty_frame_def LOST_TIMEOUT_def)
  from scan_bounce_at_pan_max[OF p d b t] p d b t show ?thesis by blast
qed

text \<open>
  The claim as stated fails at \<open>at_pan_max\<close>, the state the loop reaches from the initial
  state with 70 scan steps, on one more frame without detections: the scan step is taken,
  the direction flips, and the pan is 160, not 159.
\<close>

theorem scan_bounce_counterexample:
  "pan at_pan_max = PAN_MAX \<and> scan_dir at_pan_max = 1 \<and>
   t_now (empty_frame 20) - last_seen at_pan_max > LOST_TIMEOUT \<and>
   best_box (snd (process_frame at_pan_max (empty_frame 20))) = None \<and>
   status (snd (process_frame at_pan_max (empty_frame 20))) = ''Scanning'' \<and>
   sleeps (snd (process_frame at_pan_max (empty_frame 20))) = [SCAN_DELAY] \<and>
   scan_dir (fst (process_frame at_pan_max (empty_frame 20))) = - 1 \<and>
   pan (fst (process_frame at_pan_max (empty_frame 20))) = 160 \<and>
   PAN_MAX - real_of_int SCAN_STEP = 159 \<and>
   pan (fst (process_frame at_pan_max (empty_frame 20))) \<noteq> PAN_MAX - real_of_int SCAN_STEP"
proof -
  let ?s = "at_pan_max\<lparr>tracking_mode := ''none''\<rparr>"
  have p: "pan at_pan_max = PAN_MAX" and d: "scan_dir at_pan_max = 1"
    by (rule at_pan_max_fields)+
  have u: "\<not> use_face at_pan_max 20"
    by (simp add: use_face_def at_pan_max_fields)
  have ds: "detect_stage at_pan_max (empty_frame 20) = (?s, None, 0)"
    by (rule detect_empty_frame[OF u])
  have t: "t_now (empty_frame 20) - last_seen at_pan_max > LOST_TIMEOUT"
    unfolding at_pan_max_fields by (simp add: empty_frame_def LOST_TIMEOUT_def)
  have st: "fst (process_frame at_pan_max (empty_frame 20)) = fst (scan_step ?s)"
    using t by (simp add: process_frame_state ds act_stage_state)
  have sd: "scan_dir (fst (scan_step ?s)) = - 1"
    by (simp add: scan_dir_step Let_def at_pan_max_fields config_defs)
  have pn: "pan (fst (scan_step ?s)) = 160"
    by (simp add: scan_pan Let_def at_pan_max_fields config_defs)
  have ls: "last_seen (fst (scan_step ?s)) = 0"
    by (simp add: scan_keeps at_pan_max_fields)
  have b: "best_box (snd (process_frame at_pan_max (empty_frame 20))) = None"
    by (simp add: frame_target ds)
  have stt: "status (snd (process_frame at_pan_max (empty_frame 20))) = ''Scanning''"
    unfolding frame_status st ls ds
    by (simp add: status_text_def empty_frame_def LOST_TIMEOUT_def)
  have "snd (act_stage ?s None 0 (empty_frame 20)) = snd (scan_step ?s)"
    using t by (simp add: act_stage_out)
  then have sl: "sleeps (snd (process_frame at_pan_max (empty_frame 20))) = [SCAN_DELAY]"
    using frame_output[of at_pan_max "empty_frame 20"]
    by (simp add: ds scan_step_def Let_def)
  have v: "PAN_MAX - real_of_int SCAN_STEP = 159" by (simp add: config_defs)
  show ?thesis unfolding st sd pn v using p d t b stt sl by simp
qed

text \<open>
  C4. Confidence of a held face. The claim is that a frame in the face-hold window reports
  the confidence the remembered face had when it was accepted. The code pairs the
  remembered box with \<open>best_fconf\<close> of the current frame, which is 0.0 when this frame
  accepted no face. The run below accepts a face of confidence 0.9 at 10 s and processes
  a frame without detections at 10.05 s: the window is active, the mode is \<open>face\<close>, the
  target is the remembered box, and the reported confidence is 0, not 0.9 (and below
  the threshold \<open>FACE_CONF\<close> that every accepted face passes).
\<close>

theorem held_face_confidence_lost:
  "best_conf (snd (process_frame init_state face_frame)) = 9 / 10 \<and>
   last_conf (gen_frames init_state [Captured face_frame]) = 9 / 10 \<and>
   fst (face_loop (det_f (empty_frame (201 / 20))) (None, 0)) = None \<and>
   frame_use_face (gen_frames init_state [Captured face_frame]) (empty_frame (201 / 20)) \<and>
   best_box (snd (process_frame (gen_frames init_state [Captured face_frame])
      (empty_frame (201 / 20)))) = Some (140, 100, 180, 140) \<and>
   best_conf (snd (process_frame (gen_frames init_state [Captured face_frame])
      (empty_frame (201 / 20)))) = 0 \<and>
   tracking_mode (gen_frames init_state [Captured face_frame, Captured (empty_frame (201 / 20))])
     = ''face'' \<and>
   last_conf (gen_frames init_state [Captured face_frame, Captured (empty_frame (201 / 20))])
     = 0 \<and>
   (0::real) < FACE_CONF"
proof -
  have c0: "best_conf (snd (process_frame init_state face_frame)) = 9 / 10"
    by (simp add: frame_target detect_face_frame)
  have n: "fst (face_loop (det_f (empty_frame (201 / 20))) (None, 0)) = None"
    by (simp add: empty_frame_def)
  have b: "last_face_box after_face = Some (140, 100, 180, 140)"
    by (simp add: after_face_def)
  have w: "t_use (empty_frame (201 / 20)) - last_face_time after_face < FACE_HOLD_SEC"
    by (simp add: empty_frame_def after_face_def FACE_HOLD_SEC_def)
  have u: "frame_use_face after_face (empty_frame (201 / 20))"
    using b w by (simp add: frame_use_face_def n remember_face_def use_face_def)
  have c: "last_conf after_face = 9 / 10" by (simp add: after_face_def)
  have s2: "gen_frames init_state [Captured face_frame, Captured (empty_frame (201 / 20))] =
            fst (process_frame after_face (empty_frame (201 / 20)))"
    by (simp add: iter_captured state_face_frame)
  have th: "(0::real) < FACE_CONF" by (simp add: FACE_CONF_def)
  from frame_held[OF n b w] c0 c n u th show ?thesis
    unfolding run_face_frame s2 by blast
qed

text \<open>
  C5. Scenario with the target centre at \<open>(160, 120)\<close> and the image centre at
  \<open>(150, 112)\<close>, for any tilt direction \<open>td\<close> (so for +1, and for the configured
  \<open>TILT_DIR\<close>). The pan error is 10 and exceeds \<open>CENTER_TOL_X = 8\<close>: the pan becomes
  \<open>pan - 0.5\<close> clamped to the pan limits, which is strictly smaller when the pan is
  above \<open>PAN_MIN\<close> and is the same when the pan is at \<open>PAN_MIN\<close>. The tilt error is 8
  and does not exceed \<open>CENTER_TOL_Y = 8\<close> (the test is strict): the tilt branch is not
  entered and the tilt is unchanged.
\<close>

theorem centre_160_120_moves_pan_only:
  assumes "best_box (snd (process_frame_with td s f)) = Some (x1, y1, x2, y2)"
      and "(x1 + x2) div 2 = 160" and "(y1 + y2) div 2 = 120"
  shows "CX = 150 \<and> CY = 112 \<and>
         pan (fst (process_frame_with td s f)) = max PAN_MIN (min PAN_MAX (pan s - 1 / 2)) \<and>
         (PAN_MIN < pan s \<longrightarrow> pan (fst (process_frame_with td s f)) < pan s) \<and>
         (pan s = PAN_MIN \<longrightarrow> pan (fst (process_frame_with td s f)) = pan s) \<and>
         tilt (fst (process_frame_with td s f)) = tilt s"
proof -
  from assms(1) have b: "fst (snd (detect_stage s f)) = Some (x1, y1, x2, y2)"
    by (simp add: frame_with_target)
  have c: "CX = 150" "CY = 112" by (simp_all add: config_defs)
  have p: "pan (fst (process_frame_with td s f)) = max PAN_MIN (min PAN_MAX (pan s - 1 / 2))"
    unfolding tracked_with_state[OF b] track_with_pan
    using assms(2) by (simp add: detect_stage_fields c CENTER_TOL_X_def GAIN_PAN_def)
  have t: "tilt (fst (process_frame_with td s f)) = tilt s"
    unfolding tracked_with_state[OF b] track_with_tilt
    using assms(3) by (simp add: detect_stage_fields c CENTER_TOL_Y_def)
  have lt: "PAN_MIN < pan s \<longrightarrow> max PAN_MIN (min PAN_MAX (pan s - 1 / 2)) < pan s"
    by (simp add: max_def min_def PAN_MIN_def PAN_MAX_def)
  have eq: "pan s = PAN_MIN \<longrightarrow> max PAN_MIN (min PAN_MAX (pan s - 1 / 2)) = pan s"
    by (simp add: max_def min_def PAN_MIN_def PAN_MAX_def)
  from p t c lt eq show ?thesis by simp
qed

theorem centre_160_120_witness:
  "best_box (snd (process_frame_with 1 init_state face_frame)) = Some (140, 100, 180, 140) \<and>
   (140 + 180) div 2 = (160::int) \<and> (100 + 140) div 2 = (120::int) \<and>
   PAN_MIN < pan init_state \<and>
   pan (fst (process_frame_with 1 init_state face_frame)) = 179 / 2 \<and>
   pan (fst (process_frame_with 1 init_state face_frame)) < pan init_state \<and>
   tilt (fst (process_frame_with 1 init_state face_frame)) = tilt init_state \<and>
   best_box (snd (process_frame_with 1 (pan_floor 1) face_frame)) = Some (140, 100, 180, 140) \<and>
   pan (pan_floor 1) = PAN_MIN \<and>
   pan (fst (process_frame_with 1 (pan_floor 1) face_frame)) = pan (pan_floor 1) \<and>
   process_frame_with TILT_DIR init_state face_frame = process_frame init_state face_frame \<and>
   tilt (fst (process_frame init_state face_frame)) = tilt init_state"
proof -
  have b: "best_box (snd (process_frame_with td s face_frame)) = Some (140, 100, 180, 140)"
    for td s by (simp add: frame_with_target face_frame_target)
  have cx: "(140 + 180) div 2 = (160::int)" and cy: "(100 + 140) div 2 = (120::int)"
    by simp_all
  have p: "PAN_MIN < pan init_state" by (simp add: init_state_def config_defs)
  have v: "max PAN_MIN (min PAN_MAX (pan init_state - 1 / 2)) = 179 / 2"
    by (simp add: init_state_def config_defs)
  note one = centre_160_120_moves_pan_only[OF b cx cy, of 1 init_state]
  note flo = centre_160_120_moves_pan_only[OF b cx cy, of 1 "pan_floor 1"]
  note cfg = centre_160_120_moves_pan_only[OF b cx cy, of TILT_DIR init_state]
  have t3: "tilt (fst (process_frame init_state face_frame)) = tilt init_state"
    using cfg by (simp add: process_frame_with_config)
  from one flo p v b t3 pan_floor_pan[of 1] show ?thesis
    by (simp add: process_frame_with_config)
qed

text \<open>
  The claim as stated fails twice, with the tilt direction +1. On \<open>face_frame\<close> from
  the initial state the face is accepted with centre \<open>(160, 120)\<close>, the tilt error does
  not exceed its tolerance, and the tilt stays at 90: it does not strictly increase. On
  the same frame from \<open>pan_floor 1\<close>, where 140 such frames have brought the pan to
  \<open>PAN_MIN\<close>, the pan stays at 20: it does not strictly decrease.
\<close>

theorem centre_160_120_counterexample:
  "fst (face_loop (det_f face_frame) (None, 0)) = Some (140, 100, 180, 140) \<and>
   (140 + 180) div 2 = (160::int) \<and> (100 + 140) div 2 = (120::int) \<and>
   CX = 150 \<and> CY = 112 \<and>
   best_box (snd (process_frame_with 1 init_state face_frame)) = Some (140, 100, 180, 140) \<and>
   \<not> CENTER_TOL_Y < \<bar>120 - CY\<bar> \<and>
   tilt init_state = 90 \<and>
   tilt (fst (process_frame_with 1 init_state face_frame)) = 90 \<and>
   \<not> tilt init_state < tilt (fst (process_frame_with 1 init_state face_frame)) \<and>
   best_box (snd (process_frame_with 1 (pan_floor 1) face_frame)) = Some (140, 100, 180, 140) \<and>
   pan (pan_floor 1) = 20 \<and>
   pan (fst (process_frame_with 1 (pan_floor 1) face_frame)) = 20 \<and>
   \<not> pan (fst (process_frame_with 1 (pan_floor 1) face_frame)) < pan (pan_floor 1)"
proof -
  have b: "best_box (snd (process_frame_with td s face_frame)) = Some (140, 100, 180, 140)"
    for td s by (simp add: frame_with_target face_frame_target)
  have t0: "tilt init_state = 90" by (simp add: init_state_def config_defs)
  have t1: "tilt (fst (process_frame_with 1 init_state face_frame)) = 90"
    by (simp add: face_frame_tilt t0)
  have p0: "pan (pan_floor 1) = 20" by (simp add: pan_floor_pan PAN_MIN_def)
  have p1: "pan (fst (process_frame_with 1 (pan_floor 1) face_frame)) = 20"
    by (simp add: face_frame_pan p0 config_defs)
  have c: "CX = 150" "CY = 112" "\<not> CENTER_TOL_Y < \<bar>120 - CY\<bar>" by (simp_all add: config_defs)
  show ?thesis unfolding t1 p1 p0 t0 using b c by (simp add: face_frame_accepts)
qed

text \<open>
  C6. Dead zone. In a frame with an accepted target \<open>(x1, y1, x2, y2)\<close>, an error of the
  target centre within \<open>CENTER_TOL_X\<close> of the image centre leaves the pan as it was, and
  an error within \<open>CENTER_TOL_Y\<close> leaves the tilt as it was.
\<close>

theorem dead_zone_keeps_axis:
  assumes "best_box (snd (process_frame s f)) = Some (x1, y1, x2, y2)"
  shows "(\<bar>(x1 + x2) div 2 - CX\<bar> \<le> CENTER_TOL_X \<longrightarrow> pan (fst (process_frame s f)) = pan s) \<and>
         (\<bar>(y1 + y2) div 2 - CY\<bar> \<le> CENTER_TOL_Y \<longrightarrow> tilt (fst (process_frame s f)) = tilt s)"
proof -
  from assms have b: "fst (snd (detect_stage s f)) = Some (x1, y1, x2, y2)"
    by (simp add: frame_target)
  show ?thesis
    unfolding tracked_state[OF b] track_pan track_tilt
    by (simp add: detect_stage_fields)
qed

theorem dead_zone_keeps_axis_witness:
  "best_box (snd (process_frame init_state centred_frame)) = Some (130, 92, 170, 132) \<and>
   \<bar>(130 + 170) div 2 - CX\<bar> \<le> CENTER_TOL_X \<and>
   \<bar>(92 + 132) div 2 - CY\<bar> \<le> CENTER_TOL_Y \<and>
   pan (fst (process_frame init_state centred_frame)) = pan init_state \<and>
   tilt (fst (process_frame init_state centred_frame)) = tilt init_state"
proof -
  have w: "t_use centred_frame - t_face centred_frame < FACE_HOLD_SEC"
    by (simp add: centred_frame_def FACE_HOLD_SEC_def)
  have b: "best_box (snd (process_frame init_state centred_frame)) = Some (130, 92, 170, 132)"
    by (simp add: frame_target detect_fresh_face[OF centred_frame_accepts w])
  have x: "\<bar>(130 + 170) div 2 - CX\<bar> \<le> CENTER_TOL_X"
    and y: "\<bar>(92 + 132) div 2 - CY\<bar> \<le> CENTER_TOL_Y"
    by (simp_all add: config_defs)
  from dead_zone_keeps_axis[OF b] x y b show ?thesis by blast
qed

text \<open>
  C7. Body stage. When the face-hold window is inactive in a frame, a target of that
  frame is the scaled box of a body row that passes the three filters (person class,
  confidence at least \<open>PERSON_CONF\<close>, area at least \<open>MIN_BODY_FRAC\<close> of the frame), its
  confidence is that row's and no passing row has a higher confidence, and the mode is
  \<open>body\<close>; a passing row always yields a target; without target the mode is \<open>none\<close>.
  In particular, with face confidence 0.3 in the frame and a passing body row of
  confidence 0.9, the mode is \<open>body\<close>.
\<close>

theorem body_stage_selects_best:
  assumes idle: "\<not> frame_use_face s f"
  shows "(\<forall>b. best_box (snd (process_frame s f)) = Some b \<longrightarrow>
            tracking_mode (fst (process_frame s f)) = ''body'' \<and>
            (\<exists>d\<in>set (det_p f). qualifying_body d \<and> b = scale_box d \<and>
               best_conf (snd (process_frame s f)) = det_conf d \<and>
               (\<forall>e\<in>set (det_p f). qualifying_body e \<longrightarrow> det_conf e \<le> det_conf d))) \<and>
         ((\<exists>d\<in>set (det_p f). qualifying_body d) \<longrightarrow>
            best_box (snd (process_frame s f)) \<noteq> None) \<and>
         (best_box (snd (process_frame s f)) = None \<longrightarrow>
            tracking_mode (fst (process_frame s f)) = ''none'') \<and>
         ((\<forall>d\<in>set (det_f f). det_conf d = 3 / 10) \<and>
          (\<exists>d\<in>set (det_p f). qualifying_body d \<and> det_conf d = 9 / 10) \<longrightarrow>
            tracking_mode (fst (process_frame s f)) = ''body'')"
proof -
  let ?r = "body_loop (det_p f) (None, 0)"
  from detect_stage_no_face[OF idle] have
    tg: "snd (detect_stage s f) = ?r" and
    md: "tracking_mode (fst (process_frame s f)) =
           (if fst ?r \<noteq> None then ''body'' else ''none'')"
    by (simp_all add: frame_mode)
  from tg have bb: "best_box (snd (process_frame s f)) = fst ?r"
    and bc: "best_conf (snd (process_frame s f)) = snd ?r"
    by (simp_all add: frame_target)
  from body_loop_fresh[of "det_p f"] show ?thesis
  proof
    assume "?r = (None, 0) \<and> (\<forall>e\<in>set (det_p f). \<not> qualifying_body e)"
    then show ?thesis using bb bc md by auto
  next
    assume "\<exists>d\<in>set (det_p f). qualifying_body d \<and> ?r = (Some (scale_box d), det_conf d) \<and>
              (\<forall>e\<in>set (det_p f). qualifying_body e \<longrightarrow> det_conf e \<le> det_conf d)"
    then obtain d where d: "d \<in> set (det_p f)" "qualifying_body d"
        "?r = (Some (scale_box d), det_conf d)"
        "\<forall>e\<in>set (det_p f). qualifying_body e \<longrightarrow> det_conf e \<le> det_conf d"
      by blast
    have m: "tracking_mode (fst (process_frame s f)) = ''body''"
      using md d(3) by simp
    have b: "best_box (snd (process_frame s f)) = Some (scale_box d)"
      "best_conf (snd (process_frame s f)) = det_conf d"
      using bb bc d(3) by simp_all
    show ?thesis using m b d(1,2,4) by auto
  qed
qed

theorem body_stage_selects_best_witness:
  "\<not> frame_use_face init_state body_frame \<and>
   det_conf (hd (det_f body_frame)) = 3 / 10 \<and>
   qualifying_body (Det 15 (9 / 10) (67 / 200) (101 / 450) (401 / 600) (401 / 450)) \<and>
   \<not> qualifying_body (Det 7 (95 / 100) (67 / 200) (101 / 450) (401 / 600) (401 / 450)) \<and>
   best_box (snd (process_frame init_state body_frame)) = Some (100, 50, 200, 200) \<and>
   best_conf (snd (process_frame init_state body_frame)) = 9 / 10 \<and>
   tracking_mode (fst (process_frame init_state body_frame)) = ''body''"
proof -
  let ?d = "Det 15 (9 / 10) (67 / 200) (101 / 450) (401 / 600) (401 / 450)"
  have fl: "face_loop (det_f body_frame) (None, 0) = (None, 0)"
    by (simp add: body_frame_def config_defs)
  have idle: "\<not> frame_use_face init_state body_frame"
    by (simp add: frame_use_face_def fl remember_face_def use_face_def init_state_def)
  have f3: "det_conf (hd (det_f body_frame)) = 3 / 10" by (simp add: body_frame_def)
  have all3: "\<forall>d\<in>set (det_f body_frame). det_conf d = 3 / 10" by (simp add: body_frame_def)
  have nq: "\<not> qualifying_body (Det 7 (95 / 100) (67 / 200) (101 / 450) (401 / 600) (401 / 450))"
    by (simp add: qualifying_body_def py_int_def config_defs)
  have mem: "?d \<in> set (det_p body_frame)" by (simp add: body_frame_def)
  note main = body_stage_selects_best[OF idle]
  have ex9: "\<exists>d\<in>set (det_p body_frame). qualifying_body d \<and> det_conf d = 9 / 10"
    using mem body_frame_qualifies by (intro bexI[of _ ?d]) simp_all
  from main all3 ex9 have mode:
    "tracking_mode (fst (process_frame init_state body_frame)) = ''body''"
    by blast
  have bl: "body_loop (det_p body_frame) (None, 0) = (Some (100, 50, 200, 200), 9 / 10)"
    by (simp add: body_frame_def body_frame_boxes box_area_def) (simp add: py_int_def config_defs)
  have b: "best_box (snd (process_frame init_state body_frame)) = Some (100, 50, 200, 200) \<and>
           best_conf (snd (process_frame init_state body_frame)) = 9 / 10"
    using detect_stage_no_face[OF idle] by (simp add: frame_target bl)
  from idle f3 body_frame_qualifies nq b mode show ?thesis by blast
qed

text \<open>
  C8. A failed capture is not fatal: the iteration only sleeps for half a second, the
  state (every variable of it) is the one before, and the loop goes on with the next
  capture.
\<close>

theorem capture_failure_keeps_state:
  "gen_frames_iter s CaptureFailed = (s, Retry (1 / 2)) \<and>
   gen_frames s (CaptureFailed # cs) = gen_frames s cs"
  by (simp add: gen_frames_iter_def)

theorem capture_failure_keeps_state_witness:
  "gen_frames_iter init_state CaptureFailed = (init_state, Retry (1 / 2)) \<and>
   gen_frames init_state [CaptureFailed, Captured face_frame] =
     gen_frames init_state [Captured face_frame]"
  using capture_failure_keeps_state[of init_state "[Captured face_frame]"] by simp

text \<open>
  C9. \<open>set_angle\<close> clamps its angle to [0, 180] itself, for every input angle and without
  any assumption on the caller: the pulse width is that of the clamped angle and lies in
  [500, 2400] microseconds, and the duty cycle written lies in [1638, 7864].
\<close>

theorem set_angle_pulse_safe:
  "500 \<le> pulse_us ang \<and> pulse_us ang \<le> 2400 \<and>
   pulse_us ang = pulse_us (max 0 (min 180 ang)) \<and>
   fst (set_angle ch ang) = ch \<and>
   1638 \<le> snd (set_angle ch ang) \<and> snd (set_angle ch ang) \<le> 7864"
proof -
  have lo: "500 \<le> pulse_us ang" and hi: "pulse_us ang \<le> 2400"
    unfolding pulse_us_def by (auto simp: max_def min_def divide_simps)
  have idem: "pulse_us ang = pulse_us (max 0 (min 180 ang))"
    unfolding pulse_us_def by (simp add: max_def min_def)
  have nonneg: "0 \<le> pulse_us ang * 65535 / 20000" using lo by simp
  have "(1638::real) \<le> pulse_us ang * 65535 / 20000" using lo by simp
  then have dlo: "1638 \<le> \<lfloor>pulse_us ang * 65535 / 20000\<rfloor>" by (simp add: le_floor_iff)
  have "pulse_us ang * 65535 / 20000 < 7865" using hi by simp
  then have dhi: "\<lfloor>pulse_us ang * 65535 / 20000\<rfloor> \<le> 7864" by (simp add: floor_less_iff)
  show ?thesis using lo hi idem nonneg dlo dhi by (simp add: set_angle_def py_int_def)
qed

theorem set_angle_pulse_safe_witness:
  "pulse_us 1000 = 2400 \<and> pulse_us (- 5) = 500 \<and>
   snd (set_angle PAN_CH 1000) \<le> 7864 \<and> 1638 \<le> snd (set_angle PAN_CH (- 5))"
proof -
  have a: "pulse_us 1000 = 2400" and b: "pulse_us (- 5) = 500"
    by (simp_all add: pulse_us_def)
  show ?thesis
    using a b set_angle_pulse_safe[of 1000 PAN_CH] set_angle_pulse_safe[of "- 5" PAN_CH]
    by simp
qed

text \<open>
  C10. The gap between holding and scanning. In a frame without target, when the time
  since \<open>last_seen\<close> is not above \<open>LOST_TIMEOUT\<close> at the scan check (line 299, strict
  \<open>>\<close>) and not below it at the status check (line 358, strict \<open><\<close>) -- in particular
  when both readings give exactly \<open>LOST_TIMEOUT\<close> -- no scan step is taken, no servo
  command is issued and nothing sleeps, yet the status text is \<open>Scanning\<close>. The hold
  text is shown exactly when the elapsed time is strictly below \<open>LOST_TIMEOUT\<close>.
\<close>

theorem lost_timeout_gap:
  assumes "best_box (snd (process_frame s f)) = None"
      and "t_now f - last_seen s \<le> LOST_TIMEOUT"
      and "LOST_TIMEOUT \<le> t_status f - last_seen s"
  shows "pan (fst (process_frame s f)) = pan s \<and>
         tilt (fst (process_frame s f)) = tilt s \<and>
         scan_dir (fst (process_frame s f)) = scan_dir s \<and>
         servo_cmds (snd (process_frame s f)) = [] \<and>
         sleeps (snd (process_frame s f)) = [] \<and>
         status (snd (process_frame s f)) = ''Scanning'' \<and>
         (\<forall>e. (status_text False e = ''Target lost (hold)'') = (e < LOST_TIMEOUT))"
proof -
  let ?d = "detect_stage s f"
  from assms(1) have none: "fst (snd ?d) = None"
    by (simp add: frame_target)
  have st: "fst (process_frame s f) = fst ?d"
    using none assms(2) by (simp add: process_frame_state act_stage_state detect_stage_fields)
  have "snd (act_stage (fst ?d) (fst (snd ?d)) (snd (snd ?d)) f) = ([], [])"
    using none assms(2) by (simp add: act_stage_out detect_stage_fields)
  with frame_output[of s f] have out:
    "servo_cmds (snd (process_frame s f)) = [] \<and> sleeps (snd (process_frame s f)) = []"
    by simp
  have stt: "status (snd (process_frame s f)) = ''Scanning''"
    unfolding frame_status st using none assms(3)
    by (simp add: status_text_def detect_stage_fields)
  have iff: "\<forall>e. (status_text False e = ''Target lost (hold)'') = (e < LOST_TIMEOUT)"
    by (simp add: status_text_def)
  show ?thesis unfolding st using out stt iff by (simp add: detect_stage_fields)
qed

theorem lost_timeout_gap_witness:
  "gen_frames init_state [Captured face_frame] = after_face \<and>
   best_box (snd (process_frame after_face (empty_frame 12))) = None \<and>
   t_now (empty_frame 12) - last_seen after_face = LOST_TIMEOUT \<and>
   t_status (empty_frame 12) - last_seen after_face = LOST_TIMEOUT \<and>
   pan (fst (process_frame after_face (empty_frame 12))) = pan after_face \<and>
   tilt (fst (process_frame after_face (empty_frame 12))) = tilt after_face \<and>
   scan_dir (fst (process_frame after_face (empty_frame 12))) = scan_dir after_face \<and>
   servo_cmds (snd (process_frame after_face (empty_frame 12))) = [] \<and>
   sleeps (snd (process_frame after_face (empty_frame 12))) = [] \<and>
   status (snd (process_frame after_face (empty_frame 12))) = ''Scanning''"
proof -
  have "\<not> use_face after_face 12"
    by (simp add: use_face_def after_face_def FACE_HOLD_SEC_def)
  from detect_empty_frame[OF this]
  have b: "best_box (snd (process_frame after_face (empty_frame 12))) = None"
    by (simp add: frame_target)
  have n: "t_now (empty_frame 12) - last_seen after_face = LOST_TIMEOUT"
    and t: "t_status (empty_frame 12) - last_seen after_face = LOST_TIMEOUT"
    by (simp_all add: empty_frame_def after_face_def LOST_TIMEOUT_def)
  from n t have n': "t_now (empty_frame 12) - last_seen after_face \<le> LOST_TIMEOUT"
    and t': "LOST_TIMEOUT \<le> t_status (empty_frame 12) - last_seen after_face" by simp_all
  from lost_timeout_gap[OF b n' t'] b run_face_frame n t show ?thesis by blast
qed

end
